theory Spec2Isabelle
  imports
    Main
    "HOL-Library.Char_ord"
    "HOL-Library.List_Lexorder"
    "HOL-Library.Product_Lexorder"
    "HOL-Library.Multiset"
begin

section \<open>The de Bruijn graph of a collection of k-mers (Devoir/script05.py)\<close>

text \<open>
  The script builds, from a list of k-mers, the list of (prefix, suffix) edges
  (\<^verbatim>\<open>CompositionGraph\<close>) and from it an adjacency list, a Python \<^verbatim>\<open>dict\<close>
  from prefix to the list of suffixes, sorted by key and with sorted values
  (\<^verbatim>\<open>DeBruijn\<close>).

  A Python string is a \<open>string\<close>; strings are compared as Python compares them,
  symbol by symbol with a proper prefix first (the order of \<open>List_Lexorder\<close>
  over the order of \<open>Char_ord\<close>). A Python \<^verbatim>\<open>dict\<close> keeps its keys in the
  order of their first insertion, and the claims speak of the order of the keys,
  so a dict is an association list in insertion order. Tuples and lists are
  compared lexicographically, as \<^verbatim>\<open>sorted\<close> does on \<^verbatim>\<open>adj_list.items()\<close>.
\<close>

subsection \<open>Data\<close>

type_synonym kmer = string
type_synonym edge = "string \<times> string"
type_synonym adjacency = "(string \<times> string list) list"

text \<open>The one exception a statement of \<^verbatim>\<open>DeBruijn\<close> could raise on strings:
  \<^verbatim>\<open>adj_list[prefix]\<close> on a missing key.\<close>

datatype error = KeyError

subsection \<open>The dict operations the script uses\<close>

text \<open>\<^verbatim>\<open>k in d\<close>\<close>

definition dict_contains :: "('k \<times> 'v) list \<Rightarrow> 'k \<Rightarrow> bool" where
  "dict_contains d k = (map_of d k \<noteq> None)"

text \<open>\<^verbatim>\<open>d[k]\<close>, which raises \<^verbatim>\<open>KeyError\<close> on a missing key.\<close>

definition dict_getitem :: "('k \<times> 'v) list \<Rightarrow> 'k \<Rightarrow> error + 'v" where
  "dict_getitem d k = (case map_of d k of None \<Rightarrow> Inl KeyError | Some v \<Rightarrow> Inr v)"

text \<open>\<^verbatim>\<open>d[k] = v\<close>: an existing key keeps its position, a new key goes last.\<close>

primrec dict_setitem :: "('k \<times> 'v) list \<Rightarrow> 'k \<Rightarrow> 'v \<Rightarrow> ('k \<times> 'v) list" where
  "dict_setitem [] k v = [(k, v)]"
| "dict_setitem (p # ps) k v =
     (if fst p = k then (k, v) # ps else p # dict_setitem ps k v)"

text \<open>\<^verbatim>\<open>d.items()\<close>: the (key, value) pairs in the order of the dict.\<close>

definition dict_items :: "('k \<times> 'v) list \<Rightarrow> ('k \<times> 'v) list" where
  "dict_items d = d"

subsection \<open>Prefix, Suffix and CompositionGraph\<close>

text \<open>\<^verbatim>\<open>Pattern[:-1]\<close>: the stop index \<open>-1\<close> counts from the end and is clipped at
  0, so the slice of the empty string is the empty string.\<close>

definition Prefix :: "string \<Rightarrow> string" where
  "Prefix Pattern = take (nat (int (length Pattern) - 1)) Pattern"

text \<open>\<^verbatim>\<open>Pattern[1:]\<close>\<close>

definition Suffix :: "string \<Rightarrow> string" where
  "Suffix Pattern = drop 1 Pattern"

text \<open>The loop of \<^verbatim>\<open>CompositionGraph\<close>, on the list \<open>edges\<close> built so far.\<close>

fun CompositionGraph_loop :: "edge list \<Rightarrow> kmer list \<Rightarrow> edge list" where
  "CompositionGraph_loop edges [] = edges"
| "CompositionGraph_loop edges (kmer # rest) =
     CompositionGraph_loop (edges @ [(Prefix kmer, Suffix kmer)]) rest"

definition CompositionGraph :: "kmer list \<Rightarrow> edge list" where
  "CompositionGraph Patterns = CompositionGraph_loop [] Patterns"

subsection \<open>DeBruijn\<close>

text \<open>The body of the loop over the edges: \<^verbatim>\<open>adj_list[prefix].append(suffix)\<close>
  when the prefix is a key, \<^verbatim>\<open>adj_list[prefix] = [suffix]\<close> otherwise.\<close>

definition add_edge :: "adjacency \<Rightarrow> edge \<Rightarrow> error + adjacency" where
  "add_edge adj_list e =
     (case e of (pre, suf) \<Rightarrow>
        if dict_contains adj_list pre
        then (case dict_getitem adj_list pre of
                Inl err \<Rightarrow> Inl err
              | Inr suffixes \<Rightarrow> Inr (dict_setitem adj_list pre (suffixes @ [suf])))
        else Inr (dict_setitem adj_list pre [suf]))"

fun DeBruijn_loop :: "adjacency \<Rightarrow> edge list \<Rightarrow> error + adjacency" where
  "DeBruijn_loop adj_list [] = Inr adj_list"
| "DeBruijn_loop adj_list (e # rest) =
     (case add_edge adj_list e of
        Inl err \<Rightarrow> Inl err
      | Inr adj_list' \<Rightarrow> DeBruijn_loop adj_list' rest)"

text \<open>\<^verbatim>\<open>{k: sorted(v) for k, v in sorted(adj_list.items())}\<close>: the items are sorted
  as tuples, and the comprehension stores them one by one into a new dict.\<close>

definition sorted_adj_list :: "adjacency \<Rightarrow> adjacency" where
  "sorted_adj_list adj_list =
     foldl (\<lambda>d (k, v). dict_setitem d k (sort v)) [] (sort (dict_items adj_list))"

definition DeBruijn :: "kmer list \<Rightarrow> error + adjacency" where
  "DeBruijn Patterns =
     (case DeBruijn_loop [] (CompositionGraph Patterns) of
        Inl err \<Rightarrow> Inl err
      | Inr adj_list \<Rightarrow> Inr (sorted_adj_list adj_list))"

text \<open>The number of entries over all value lists of an adjacency list.\<close>

definition edge_count :: "adjacency \<Rightarrow> nat" where
  "edge_count adj_list = sum_list (map (\<lambda>(k, v). length v) adj_list)"

subsection \<open>Notions used to state and prove the properties\<close>

text \<open>The value list bound to a key, the empty list for a key that is absent.\<close>

definition neighbours :: "adjacency \<Rightarrow> string \<Rightarrow> string list" where
  "neighbours adj_list k = (case map_of adj_list k of None \<Rightarrow> [] | Some v \<Rightarrow> v)"

text \<open>The loop of \<^verbatim>\<open>DeBruijn\<close> without its error branch.\<close>

definition group_edges :: "adjacency \<Rightarrow> edge list \<Rightarrow> adjacency" where
  "group_edges adj_list edges =
     foldl (\<lambda>d (pre, suf). dict_setitem d pre (neighbours d pre @ [suf])) adj_list edges"

text \<open>The result of \<^verbatim>\<open>DeBruijn\<close> in closed form: one entry for each prefix, in
  increasing order, bound to the sorted suffixes of the k-mers with that prefix.\<close>

definition neighbours_of :: "kmer list \<Rightarrow> string \<Rightarrow> string list" where
  "neighbours_of Patterns k =
     sort (map Suffix (filter (\<lambda>kmer. Prefix kmer = k) Patterns))"

definition adjacency_of :: "kmer list \<Rightarrow> adjacency" where
  "adjacency_of Patterns =
     map (\<lambda>k. (k, neighbours_of Patterns k)) (sorted_list_of_set (Prefix ` set Patterns))"

section \<open>Prefix, Suffix and CompositionGraph\<close>

lemma Prefix_butlast: "Prefix Pattern = butlast Pattern"
  by (cases "Pattern = []") (simp_all add: Prefix_def butlast_conv_take nat_diff_distrib')

lemma Suffix_tl: "Suffix Pattern = tl Pattern"
  by (simp add: Suffix_def drop_Suc)

lemma CompositionGraph_loop_map:
  "CompositionGraph_loop edges Patterns =
     edges @ map (\<lambda>kmer. (Prefix kmer, Suffix kmer)) Patterns"
  by (induction Patterns arbitrary: edges) simp_all

lemma CompositionGraph_map:
  "CompositionGraph Patterns = map (\<lambda>kmer. (Prefix kmer, Suffix kmer)) Patterns"
  by (simp add: CompositionGraph_def CompositionGraph_loop_map)

section \<open>The dict operations\<close>

lemma map_of_setitem: "map_of (dict_setitem d k v) = (map_of d)(k \<mapsto> v)"
  by (induction d) (auto simp: fun_eq_iff)

lemma keys_setitem:
  "map fst (dict_setitem d k v) =
     (if k \<in> set (map fst d) then map fst d else map fst d @ [k])"
  by (induction d) auto

lemma keyset_setitem: "fst ` set (dict_setitem d k v) = insert k (fst ` set d)"
  by (induction d) auto

lemma setitem_fresh: "k \<notin> fst ` set d \<Longrightarrow> dict_setitem d k v = d @ [(k, v)]"
  by (induction d) auto

lemma neighbours_setitem:
  "neighbours (dict_setitem d k v) k' = (if k' = k then v else neighbours d k')"
  by (simp add: neighbours_def map_of_setitem)

lemma neighbours_member:
  assumes "distinct (map fst adj_list)" and "(k, v) \<in> set adj_list"
  shows "neighbours adj_list k = v"
  using assms by (simp add: neighbours_def)

section \<open>The loop of DeBruijn never raises\<close>

text \<open>\<^verbatim>\<open>adj_list[prefix]\<close> is read only under \<^verbatim>\<open>if prefix in adj_list\<close>, so the
  \<^verbatim>\<open>KeyError\<close> branch is never taken.\<close>

lemma add_edge_Inr:
  "add_edge adj_list (pre, suf) =
     Inr (dict_setitem adj_list pre (neighbours adj_list pre @ [suf]))"
  by (auto simp: add_edge_def dict_contains_def dict_getitem_def neighbours_def)

lemma group_edges_Nil: "group_edges adj_list [] = adj_list"
  by (simp add: group_edges_def)

lemma group_edges_Cons:
  "group_edges adj_list ((pre, suf) # edges) =
     group_edges (dict_setitem adj_list pre (neighbours adj_list pre @ [suf])) edges"
  by (simp add: group_edges_def)

lemma DeBruijn_loop_Inr: "DeBruijn_loop adj_list edges = Inr (group_edges adj_list edges)"
  by (induction edges arbitrary: adj_list)
    (auto simp: group_edges_Nil group_edges_Cons add_edge_Inr)

section \<open>Invariants of the loop\<close>

lemma keys_group_edges:
  "fst ` set (group_edges adj_list edges) = fst ` set adj_list \<union> fst ` set edges"
proof (induction edges arbitrary: adj_list)
  case Nil
  show ?case by (simp add: group_edges_Nil)
next
  case (Cons e edges)
  obtain pre suf where e: "e = (pre, suf)" by (cases e)
  show ?case unfolding e group_edges_Cons Cons.IH keyset_setitem by simp
qed

lemma distinct_group_edges:
  "distinct (map fst adj_list) \<Longrightarrow> distinct (map fst (group_edges adj_list edges))"
  by (induction edges arbitrary: adj_list)
    (auto simp: group_edges_Nil group_edges_Cons keys_setitem)

lemma neighbours_group_edges:
  "neighbours (group_edges adj_list edges) k =
     neighbours adj_list k @ map snd (filter (\<lambda>e. fst e = k) edges)"
  by (induction edges arbitrary: adj_list)
    (auto simp: group_edges_Nil group_edges_Cons neighbours_setitem)

lemma edge_count_setitem:
  "edge_count (dict_setitem d k (neighbours d k @ [suf])) = Suc (edge_count d)"
  by (induction d) (auto simp: edge_count_def neighbours_def)

lemma edge_count_group_edges:
  "edge_count (group_edges adj_list edges) = edge_count adj_list + length edges"
  by (induction edges arbitrary: adj_list)
    (auto simp: group_edges_Nil group_edges_Cons edge_count_setitem)

lemma neighbours_CompositionGraph:
  "neighbours (group_edges [] (CompositionGraph Patterns)) k =
     map Suffix (filter (\<lambda>kmer. Prefix kmer = k) Patterns)"
proof -
  have "neighbours [] k = []"
    by (simp add: neighbours_def)
  then show ?thesis
    by (simp add: neighbours_group_edges CompositionGraph_map filter_map comp_def)
qed

lemma keys_CompositionGraph:
  "fst ` set (group_edges [] (CompositionGraph Patterns)) = Prefix ` set Patterns"
  by (simp add: keys_group_edges CompositionGraph_map image_image)

section \<open>The sorted dict\<close>

text \<open>The keys of \<open>adj_list\<close> are distinct, so the comprehension appends each
  sorted item and overwrites none.\<close>

lemma foldl_setitem_distinct:
  "distinct (map fst (d @ xs)) \<Longrightarrow>
     foldl (\<lambda>d (k, v). dict_setitem d k (f v)) d xs = d @ map (\<lambda>(k, v). (k, f v)) xs"
proof (induction xs arbitrary: d)
  case Nil
  show ?case by simp
next
  case (Cons x xs)
  obtain k v where x: "x = (k, v)" by (cases x)
  from Cons.prems have fresh: "k \<notin> fst ` set d" by (auto simp: x)
  from Cons.prems have "distinct (map fst ((d @ [(k, v')]) @ xs))" for v'
    by (auto simp: x)
  from Cons.IH [OF this] show ?case
    by (simp add: x setitem_fresh [OF fresh])
qed

lemma sorted_adj_list_map:
  assumes "distinct (map fst adj_list)"
  shows "sorted_adj_list adj_list = map (\<lambda>(k, v). (k, sort v)) (sort adj_list)"
proof -
  from assms have "distinct (map fst (sort adj_list))"
    by (metis distinct_map distinct_sort set_sort)
  then show ?thesis
    using foldl_setitem_distinct [of "[]" "sort adj_list" sort]
    by (simp add: sorted_adj_list_def dict_items_def)
qed

lemma sorted_map_fst:
  "sorted (xs :: ('a::linorder \<times> 'b::linorder) list) \<Longrightarrow> sorted (map fst xs)"
  by (induction xs) (auto simp: less_eq_prod_def)

lemma DeBruijn_grouped:
  "DeBruijn Patterns =
     Inr (map (\<lambda>(k, v). (k, sort v)) (sort (group_edges [] (CompositionGraph Patterns))))"
  by (simp add: DeBruijn_def DeBruijn_loop_Inr sorted_adj_list_map distinct_group_edges)

section \<open>The result in closed form\<close>

lemma alist_eqI:
  "map fst m = ks \<Longrightarrow> (\<And>k v. (k, v) \<in> set m \<Longrightarrow> v = F k) \<Longrightarrow>
     m = map (\<lambda>k. (k, F k)) ks"
proof (induction m arbitrary: ks)
  case Nil
  then show ?case by simp
next
  case (Cons p m)
  obtain k v where p: "p = (k, v)" by (cases p)
  from Cons.prems(2) [of k v] have v: "v = F k" by (simp add: p)
  have "m = map (\<lambda>k. (k, F k)) (map fst m)"
    by (rule Cons.IH [OF refl]) (simp add: Cons.prems(2))
  with Cons.prems(1) show ?case
    by (auto simp: p v)
qed

lemma DeBruijn_adjacency_of: "DeBruijn Patterns = Inr (adjacency_of Patterns)"
proof -
  let ?g = "group_edges [] (CompositionGraph Patterns)"
  let ?m = "map (\<lambda>(k, v). (k, sort v)) (sort ?g)"
  have dist: "distinct (map fst ?g)"
    by (simp add: distinct_group_edges)
  have fst_m: "map fst ?m = map fst (sort ?g)"
    by (simp add: comp_def case_prod_beta)
  have "sorted (map fst (sort ?g))"
    by (rule sorted_map_fst) simp
  moreover have "distinct (map fst (sort ?g))"
    using dist by (metis distinct_map distinct_sort set_sort)
  moreover have "set (map fst (sort ?g)) = Prefix ` set Patterns"
    using keys_CompositionGraph [of Patterns] by simp
  ultimately have keys: "map fst ?m = sorted_list_of_set (Prefix ` set Patterns)"
    unfolding fst_m by (metis sorted_list_of_set.idem_if_sorted_distinct)
  have vals: "v = neighbours_of Patterns k" if "(k, v) \<in> set ?m" for k v
  proof -
    from that obtain v' where v': "(k, v') \<in> set ?g" and v: "v = sort v'"
      by auto
    from neighbours_member [OF dist v'] show ?thesis
      by (simp add: v neighbours_of_def neighbours_CompositionGraph)
  qed
  have "?m = adjacency_of Patterns"
    unfolding adjacency_of_def by (rule alist_eqI [OF keys vals])
  then show ?thesis
    by (simp add: DeBruijn_grouped)
qed

lemma map_of_adjacency_of:
  "map_of (adjacency_of Patterns) k =
     (if k \<in> Prefix ` set Patterns then Some (neighbours_of Patterns k) else None)"
  by (simp add: adjacency_of_def map_of_map_restrict restrict_map_def)

lemma keys_adjacency_of:
  "map fst (adjacency_of Patterns) = sorted_list_of_set (Prefix ` set Patterns)"
  by (simp add: adjacency_of_def comp_def)

lemma keyset_adjacency_of: "fst ` set (adjacency_of Patterns) = Prefix ` set Patterns"
  by (simp add: adjacency_of_def image_image)

lemma set_adjacency_of:
  "(k, v) \<in> set (adjacency_of Patterns) \<longleftrightarrow>
     k \<in> Prefix ` set Patterns \<and> v = neighbours_of Patterns k"
  by (auto simp: adjacency_of_def)

lemma Suffix_in_neighbours_of:
  "kmer \<in> set Patterns \<Longrightarrow> Suffix kmer \<in> set (neighbours_of Patterns (Prefix kmer))"
  by (simp add: neighbours_of_def)

lemma sort_cong_mset: "mset xs = mset ys \<Longrightarrow> sort xs = sort (ys :: 'a::linorder list)"
  by (metis properties_for_sort sorted_sort mset_sort)

lemma adjacency_of_mset:
  assumes "mset Patterns = mset Patterns'"
  shows "adjacency_of Patterns = adjacency_of Patterns'"
proof -
  from assms have "set Patterns = set Patterns'"
    by (rule mset_eq_setD)
  moreover have "neighbours_of Patterns k = neighbours_of Patterns' k" for k
    unfolding neighbours_of_def
    by (rule sort_cong_mset) (simp add: assms)
  ultimately show ?thesis
    by (simp add: adjacency_of_def)
qed

section \<open>Counting entries\<close>

lemma sum_list_sort:
  "sum_list (map f (sort xs)) = (sum_list (map f xs) :: nat)"
proof -
  have "sum_list (map f (sort xs)) = sum_mset (mset (map f (sort xs)))"
    by (simp only: sum_mset_sum_list)
  also have "\<dots> = sum_mset (mset (map f xs))"
    by simp
  also have "\<dots> = sum_list (map f xs)"
    by (simp only: sum_mset_sum_list)
  finally show ?thesis .
qed

lemma edge_count_snd: "edge_count adj_list = sum_list (map (\<lambda>x. length (snd x)) adj_list)"
  by (simp add: edge_count_def case_prod_unfold)

lemma edge_count_sorted:
  "edge_count (map (\<lambda>(k, v). (k, sort v)) (sort adj_list)) = edge_count adj_list"
  by (simp add: edge_count_snd comp_def case_prod_beta sum_list_sort)

lemma count_list_sort: "count_list (sort xs) a = count_list xs a"
  by (simp flip: count_mset)

text \<open>A k-mer of length at least 2 is determined by its prefix and its suffix.\<close>

lemma kmer_eqI:
  assumes "2 \<le> length kmer" and "Prefix p = Prefix kmer" and "Suffix p = Suffix kmer"
  shows "p = kmer"
proof -
  from assms(1) obtain a b rest where kmer: "kmer = a # b # rest"
    by (cases kmer; cases "tl kmer") auto
  from assms(2) have "p \<noteq> []"
    by (auto simp: Prefix_butlast kmer)
  then obtain c p' where p: "p = c # p'"
    by (cases p) auto
  from assms(3) have p': "p' = b # rest"
    by (simp add: Suffix_tl p kmer)
  from assms(2) have "c = a"
    by (simp add: Prefix_butlast p p' kmer)
  then show ?thesis
    by (simp add: p p' kmer)
qed

lemma count_list_edges:
  assumes "2 \<le> length kmer"
  shows "count_list (map Suffix (filter (\<lambda>p. Prefix p = Prefix kmer) Patterns)) (Suffix kmer) =
         count_list Patterns kmer"
proof (induction Patterns)
  case Nil
  show ?case by simp
next
  case (Cons p Patterns)
  have "Prefix p = Prefix kmer \<and> Suffix p = Suffix kmer \<longleftrightarrow> p = kmer"
    using kmer_eqI [OF assms] by auto
  with Cons.IH show ?case
    by auto
qed

section \<open>The claims\<close>

text \<open>
  C1, as stated, does not hold: on the input
  \<open>[GAGG, CAGG, GGGG, GGGA, CAGG, AGGG, GGAG]\<close> the result has the five keys, but
  it does not bind \<open>GGA\<close> to \<open>[GGG]\<close> and \<open>GGG\<close> to \<open>[GAG, GGA]\<close>: the k-mer
  \<open>GGAG\<close> is the only one with prefix \<open>GGA\<close> and its suffix is \<open>GAG\<close>, and
  the k-mers \<open>GGGG\<close> and \<open>GGGA\<close> have prefix \<open>GGG\<close> and suffixes \<open>GGG\<close> and
  \<open>GGA\<close>.
\<close>

theorem DeBruijn_scenario_counterexample:
  "\<not> (\<exists>adj. DeBruijn [''GAGG'', ''CAGG'', ''GGGG'', ''GGGA'', ''CAGG'', ''AGGG'', ''GGAG'']
            = Inr adj \<and>
          set (map fst adj) = {''AGG'', ''CAG'', ''GAG'', ''GGA'', ''GGG''} \<and>
          map_of adj ''AGG'' = Some [''GGG''] \<and>
          map_of adj ''CAG'' = Some [''AGG'', ''AGG''] \<and>
          map_of adj ''GAG'' = Some [''AGG''] \<and>
          map_of adj ''GGA'' = Some [''GGG''] \<and>
          map_of adj ''GGG'' = Some [''GAG'', ''GGA''])"
proof -
  have "DeBruijn [''GAGG'', ''CAGG'', ''GGGG'', ''GGGA'', ''CAGG'', ''AGGG'', ''GGAG''] =
    Inr [(''AGG'', [''GGG'']), (''CAG'', [''AGG'', ''AGG'']), (''GAG'', [''AGG'']),
         (''GGA'', [''GAG'']), (''GGG'', [''GGA'', ''GGG''])]"
    by code_simp
  then show ?thesis
    by auto
qed

text \<open>
  C1 (amended): for the input \<open>[GAGG, CAGG, GGGG, GGGA, CAGG, AGGG, GGAG]\<close>,
  \<open>DeBruijn\<close> returns the mapping with the keys \<open>AGG, CAG, GAG, GGA, GGG\<close>, in
  this order, with \<open>AGG -> [GGG]\<close>, \<open>CAG -> [AGG, AGG]\<close>, \<open>GAG -> [AGG]\<close>,
  \<open>GGA -> [GAG]\<close> and \<open>GGG -> [GGA, GGG]\<close>, each value list sorted.
\<close>

theorem DeBruijn_scenario:
  "DeBruijn [''GAGG'', ''CAGG'', ''GGGG'', ''GGGA'', ''CAGG'', ''AGGG'', ''GGAG''] =
     Inr [(''AGG'', [''GGG'']), (''CAG'', [''AGG'', ''AGG'']), (''GAG'', [''AGG'']),
          (''GGA'', [''GAG'']), (''GGG'', [''GGA'', ''GGG''])]"
  by code_simp

text \<open>
  C2: for every input list of n k-mers (any strings), \<open>DeBruijn\<close> returns a
  mapping, and the lengths of its value lists add up to n.
\<close>

theorem DeBruijn_entries:
  "\<exists>adj. DeBruijn Patterns = Inr adj \<and>
     sum_list (map (\<lambda>(k, v). length v) adj) = length Patterns"
proof -
  have "edge_count [] = 0"
    by (simp add: edge_count_def)
  then have "edge_count (group_edges [] (CompositionGraph Patterns)) = length Patterns"
    by (simp add: edge_count_group_edges CompositionGraph_map)
  then have "edge_count (map (\<lambda>(k, v). (k, sort v))
      (sort (group_edges [] (CompositionGraph Patterns)))) = length Patterns"
    by (simp only: edge_count_sorted)
  then show ?thesis
    unfolding DeBruijn_grouped edge_count_def by blast
qed

theorem DeBruijn_entries_witness:
  "\<exists>adj. DeBruijn [''CAGG'', ''GGGA'', ''CAGG''] = Inr adj \<and>
     sum_list (map (\<lambda>(k, v). length v) adj) = 3"
  using DeBruijn_entries [of "[''CAGG'', ''GGGA'', ''CAGG'']"] by (simp add: eval_nat_numeral)

text \<open>
  C3: two input lists that are permutations of each other (the same k-mers with
  the same multiplicities) give the same result: the same keys in the same
  order, each bound to the same sorted value list.
\<close>

theorem DeBruijn_permutation:
  "mset Patterns = mset Patterns' \<Longrightarrow> DeBruijn Patterns = DeBruijn Patterns'"
proof -
  assume "mset Patterns = mset Patterns'"
  then have "adjacency_of Patterns = adjacency_of Patterns'"
    by (rule adjacency_of_mset)
  then show ?thesis
    by (simp only: DeBruijn_adjacency_of)
qed

theorem DeBruijn_permutation_witness:
  "mset [''GAGG'', ''CAGG'', ''GGGG''] = mset [''GGGG'', ''GAGG'', ''CAGG''] \<and>
   DeBruijn [''GAGG'', ''CAGG'', ''GGGG''] = DeBruijn [''GGGG'', ''GAGG'', ''CAGG'']"
proof -
  have h: "mset [''GAGG'', ''CAGG'', ''GGGG''] = mset [''GGGG'', ''GAGG'', ''CAGG'']"
    by simp
  from h DeBruijn_permutation [OF h] show ?thesis
    by (rule conjI)
qed

text \<open>
  C4: the keys of the result, in the order of the mapping, are strictly
  increasing, and each value list is non-decreasing, in the lexicographic order
  of strings.
\<close>

theorem DeBruijn_sorted:
  "\<exists>adj. DeBruijn Patterns = Inr adj \<and> sorted_wrt (<) (map fst adj) \<and>
     (\<forall>(k, v) \<in> set adj. sorted v)"
proof -
  have "sorted_wrt (<) (map fst (adjacency_of Patterns))"
    by (simp add: keys_adjacency_of)
  moreover have "\<forall>(k, v) \<in> set (adjacency_of Patterns). sorted v"
    by (auto simp: set_adjacency_of neighbours_of_def)
  ultimately show ?thesis
    by (simp add: DeBruijn_adjacency_of)
qed

theorem DeBruijn_sorted_witness:
  "DeBruijn [''GGGG'', ''CAGG'', ''GGGA''] =
     Inr [(''CAG'', [''AGG'']), (''GGG'', [''GGA'', ''GGG''])] \<and>
   sorted_wrt (<) [''CAG'', ''GGG''] \<and> sorted [''AGG''] \<and> sorted [''GGA'', ''GGG'']"
proof -
  have val: "DeBruijn [''GGGG'', ''CAGG'', ''GGGA''] =
      Inr [(''CAG'', [''AGG'']), (''GGG'', [''GGA'', ''GGG''])]"
    by code_simp
  from DeBruijn_sorted [of "[''GGGG'', ''CAGG'', ''GGGA'']"]
  have "sorted_wrt (<) (map fst [(''CAG'', [''AGG'']), (''GGG'', [''GGA'', ''GGG''])]) \<and>
    (\<forall>(k, v) \<in> set [(''CAG'', [''AGG'']), (''GGG'', [''GGA'', ''GGG''])]. sorted v)"
    unfolding val by blast
  with val show ?thesis
    by simp
qed

text \<open>
  C5, as stated, does not hold for k-mers of length 0 or 1, which all have the
  empty prefix and the empty suffix: in \<open>[A, C]\<close> the k-mer \<open>A\<close> appears once, and
  the value list of its prefix holds its suffix twice.
\<close>

theorem DeBruijn_duplicates_counterexample:
  "DeBruijn [''A'', ''C''] = Inr [([], [[], []])] \<and>
   count_list [''A'', ''C''] ''A'' = 1 \<and>
   Prefix ''A'' = [] \<and> Suffix ''A'' = [] \<and>
   count_list [[], []] ([] :: string) = 2"
  by code_simp

text \<open>
  C5 (amended): for every input list and every k-mer of length at least 2 that
  appears m times in it (m > 0), the result of \<open>DeBruijn\<close> binds the prefix of
  the k-mer to a value list in which the suffix of the k-mer occurs exactly m
  times.
\<close>

theorem DeBruijn_duplicates:
  assumes "2 \<le> length kmer" and "kmer \<in> set Patterns"
  shows "\<exists>adj v. DeBruijn Patterns = Inr adj \<and> map_of adj (Prefix kmer) = Some v \<and>
           count_list v (Suffix kmer) = count_list Patterns kmer"
  using assms
  by (simp add: DeBruijn_adjacency_of map_of_adjacency_of neighbours_of_def
        count_list_sort count_list_edges)

theorem DeBruijn_duplicates_witness:
  "2 \<le> length ''CAGG'' \<and> ''CAGG'' \<in> set [''CAGG'', ''GGGA'', ''CAGG''] \<and>
   (\<exists>adj v. DeBruijn [''CAGG'', ''GGGA'', ''CAGG''] = Inr adj \<and>
      map_of adj (Prefix ''CAGG'') = Some v \<and>
      count_list v (Suffix ''CAGG'') = 2)"
  using DeBruijn_duplicates [of "''CAGG''" "[''CAGG'', ''GGGA'', ''CAGG'']"] by (simp add: eval_nat_numeral)

text \<open>
  C6: \<open>CompositionGraph\<close> returns a list of pairs as long as its input, whose
  i-th element is the pair (prefix, suffix) of the i-th k-mer, the prefix being
  the k-mer without its last symbol and the suffix the k-mer without its first
  symbol, in the order of the input. The result depends on the input only.
\<close>

theorem CompositionGraph_pairs:
  "length (CompositionGraph Patterns) = length Patterns \<and>
   (\<forall>i < length Patterns.
      CompositionGraph Patterns ! i = (Prefix (Patterns ! i), Suffix (Patterns ! i)) \<and>
      Prefix (Patterns ! i) = butlast (Patterns ! i) \<and>
      Suffix (Patterns ! i) = tl (Patterns ! i))"
  by (simp add: CompositionGraph_map Prefix_butlast Suffix_tl)

theorem CompositionGraph_pairs_witness:
  "length (CompositionGraph [''GAGG'', ''CAG'']) = 2 \<and>
   CompositionGraph [''GAGG'', ''CAG''] ! 1 = (''CA'', ''AG'')"
proof -
  have "(1::nat) < length [''GAGG'', ''CAG'']"
    by simp
  with CompositionGraph_pairs [of "[''GAGG'', ''CAG'']"]
  have "length (CompositionGraph [''GAGG'', ''CAG'']) = length [''GAGG'', ''CAG''] \<and>
    CompositionGraph [''GAGG'', ''CAG''] ! 1 =
      (butlast ([''GAGG'', ''CAG''] ! 1), tl ([''GAGG'', ''CAG''] ! 1))"
    by metis
  then show ?thesis
    by simp
qed

text \<open>
  C7: the result of \<open>DeBruijn\<close> has exactly one key for each distinct prefix of
  an input k-mer (a string is a key if and only if some input k-mer has it as
  prefix), and the value list of every key is non-empty.
\<close>

theorem DeBruijn_keys:
  "\<exists>adj. DeBruijn Patterns = Inr adj \<and> distinct (map fst adj) \<and>
     set (map fst adj) = Prefix ` set Patterns \<and> (\<forall>(k, v) \<in> set adj. v \<noteq> [])"
proof -
  have "\<forall>(k, v) \<in> set (adjacency_of Patterns). v \<noteq> []"
    using Suffix_in_neighbours_of by (fastforce simp: set_adjacency_of)
  moreover have "distinct (map fst (adjacency_of Patterns))"
    by (simp add: keys_adjacency_of)
  ultimately show ?thesis
    by (simp add: DeBruijn_adjacency_of keyset_adjacency_of)
qed

theorem DeBruijn_keys_witness:
  "DeBruijn [''GGGG'', ''CAGG'', ''GGGA''] =
     Inr [(''CAG'', [''AGG'']), (''GGG'', [''GGA'', ''GGG''])] \<and>
   distinct [''CAG'', ''GGG''] \<and>
   {''CAG'', ''GGG''} = Prefix ` {''GGGG'', ''CAGG'', ''GGGA''} \<and>
   [''AGG''] \<noteq> [] \<and> [''GGA'', ''GGG''] \<noteq> []"
proof -
  have val: "DeBruijn [''GGGG'', ''CAGG'', ''GGGA''] =
      Inr [(''CAG'', [''AGG'']), (''GGG'', [''GGA'', ''GGG''])]"
    by code_simp
  from DeBruijn_keys [of "[''GGGG'', ''CAGG'', ''GGGA'']"]
  have "distinct (map fst [(''CAG'', [''AGG'']), (''GGG'', [''GGA'', ''GGG''])]) \<and>
    set (map fst [(''CAG'', [''AGG'']), (''GGG'', [''GGA'', ''GGG''])]) =
      Prefix ` set [''GGGG'', ''CAGG'', ''GGGA'']"
    unfolding val by blast
  with val show ?thesis
    by simp
qed

text \<open>
  C8: \<open>DeBruijn\<close> of the empty list returns the empty mapping, a normal result
  and not an error.
\<close>

theorem DeBruijn_empty: "DeBruijn [] = Inr []"
  by (simp add: DeBruijn_def CompositionGraph_def sorted_adj_list_def dict_items_def)

text \<open>
  C9: \<open>DeBruijn\<close> returns a mapping for every list of strings and never raises:
  the lengths of the k-mers are not checked, and every prefix, of whatever
  length, is a key of the result.
\<close>

theorem DeBruijn_total:
  "\<exists>adj. DeBruijn Patterns = Inr adj \<and> set (map fst adj) = set (map Prefix Patterns)"
  by (simp add: DeBruijn_adjacency_of keyset_adjacency_of)

theorem DeBruijn_total_witness:
  "\<exists>adj. DeBruijn [''AB'', ''ABCD'', ''C''] = Inr adj \<and>
     set (map fst adj) = {''A'', ''ABC'', []}"
  using DeBruijn_total [of "[''AB'', ''ABCD'', ''C'']"]
  by (simp add: Prefix_butlast)

text \<open>
  C10: \<open>Prefix\<close> and \<open>Suffix\<close> of the empty string are the empty string, as
  for a string of length 1; the empty string as a k-mer gives the edge from the
  empty string to itself, and the result of \<open>DeBruijn\<close> on an input that holds
  it has the empty string as a key, with the empty string in its value list.
\<close>

theorem DeBruijn_empty_kmer:
  "Prefix [] = [] \<and> Suffix [] = [] \<and> Prefix [c] = [] \<and> Suffix [c] = [] \<and>
   CompositionGraph [[]] = [([], [])] \<and>
   ([] \<in> set Patterns \<longrightarrow>
      (\<exists>adj v. DeBruijn Patterns = Inr adj \<and> map_of adj [] = Some v \<and> [] \<in> set v))"
proof -
  have e: "Prefix [] = []" "Suffix [] = []"
    by (simp_all add: Prefix_def Suffix_def)
  have "[] \<in> set (neighbours_of Patterns [])" if "[] \<in> set Patterns"
    using Suffix_in_neighbours_of [OF that] by (simp add: e)
  moreover have "[] \<in> Prefix ` set Patterns" if "[] \<in> set Patterns"
    using that e by force
  ultimately show ?thesis
    by (simp add: DeBruijn_adjacency_of map_of_adjacency_of CompositionGraph_map
          Prefix_def Suffix_def)
qed

theorem DeBruijn_empty_kmer_witness:
  "[] \<in> set [''AB'', []] \<and>
   (\<exists>adj v. DeBruijn [''AB'', []] = Inr adj \<and> map_of adj [] = Some v \<and> [] \<in> set v)"
  using DeBruijn_empty_kmer [of "CHR ''A''" "[''AB'', []]"] by simp

end
